theory Spec2Isabelle
  imports Complex_Main "HOL-Library.Multiset"
begin

section \<open>GeoCards: question engine\<close>

text \<open>
  A shallow embedding of the question-selection, sampling, scoring and name-normalisation
  code of the GeoCards quiz. The repository holds several revisions of the same component;
  each definition below names the file it is taken from.

  Conventions.
  \<^item> JavaScript strings are modelled as \<open>string\<close>, read as sequences of the code points
    U+0000..U+00FF; the String builtins used by the code (\<open>trim\<close>, \<open>toLowerCase\<close>,
    \<open>normalize("NFD")\<close>, the regular expressions) are modelled on that range.
  \<^item> An optional value (\<open>undefined\<close>/\<open>null\<close>) is an \<open>option\<close>; a JavaScript truthiness test
    on an optional string is \<open>truthy\<close>.
  \<^item> Counters are natural numbers (they start at 0 and only \<open>n + 1\<close> or \<open>0\<close> is ever stored).
  \<^item> \<open>Math.random()\<close> reads the next element of a sequence of reals; the platform's contract
    that each value lies in \<open>[0, 1)\<close> is the predicate \<open>unit_rng\<close>.
\<close>

subsection \<open>Data model (src/types.ts)\<close>

record CountryItem =
  type :: string
  images :: "string list"

record CountryEntry =
  country :: string
  region :: string
  items :: "CountryItem list"

record QuestionImage =
  url :: string
  type :: string

record Question =
  correctCountry :: string
  images :: "QuestionImage list"

text \<open>\<open>QuestionOptions\<close>: every field is optional.\<close>

record QuestionOptions =
  clueCount :: "nat option"
  region :: "string option"
  itemType :: "string option"

definition truthy :: "string option \<Rightarrow> bool" where
  "truthy v = (case v of None \<Rightarrow> False | Some s \<Rightarrow> s \<noteq> [])"

subsection \<open>Randomness\<close>

type_synonym rng = "nat \<Rightarrow> real"

definition Math_random :: "rng \<Rightarrow> real \<times> rng" where
  "Math_random g = (g 0, \<lambda>n. g (Suc n))"

text \<open>\<open>Math.floor(Math.random() * n)\<close>\<close>

definition random_index :: "nat \<Rightarrow> rng \<Rightarrow> nat \<times> rng" where
  "random_index n g = (case Math_random g of (r, g') \<Rightarrow> (nat \<lfloor>r * real n\<rfloor>, g'))"

definition unit_rng :: "rng \<Rightarrow> bool" where
  "unit_rng g = (\<forall>n. 0 \<le> g n \<and> g n < 1)"

subsection \<open>shuffleArray (src/lib/questions.ts, lines 27-34; the same in every revision)\<close>

text \<open>
  The loop \<open>for (i = a.length - 1; i > 0; i--)\<close> with the swap
  \<open>[a[i], a[j]] = [a[j], a[i]]\<close>, on the array value.
\<close>

fun shuffle_loop :: "nat \<Rightarrow> 'a list \<Rightarrow> rng \<Rightarrow> 'a list \<times> rng" where
  "shuffle_loop 0 a g = (a, g)"
| "shuffle_loop (Suc k) a g =
     (case random_index (Suc k + 1) g of
        (j, g') \<Rightarrow> shuffle_loop k (a[Suc k := a ! j, j := a ! Suc k]) g')"

definition shuffleArray :: "'a list \<Rightarrow> rng \<Rightarrow> 'a list \<times> rng" where
  "shuffleArray arr g = shuffle_loop (length arr - 1) arr g"

text \<open>
  The same function on a store of arrays, where an array is a reference: address \<open>r\<close> of the
  store \<open>s\<close> holds the array \<open>s ! r\<close>, and allocation appends. \<open>const a = [...arr]\<close>
  allocates the copy; the loop writes through the reference \<open>a\<close> only.
\<close>

type_synonym 'a store = "'a list list"

fun shuffle_loop_st :: "nat \<Rightarrow> nat \<Rightarrow> 'a store \<Rightarrow> rng \<Rightarrow> 'a store \<times> rng" where
  "shuffle_loop_st 0 a s g = (s, g)"
| "shuffle_loop_st (Suc k) a s g =
     (case random_index (Suc k + 1) g of
        (j, g') \<Rightarrow>
          (let x = s ! a ! j; y = s ! a ! Suc k
           in shuffle_loop_st k a (s[a := (s ! a)[Suc k := x, j := y]]) g'))"

definition shuffleArray_st :: "nat \<Rightarrow> 'a store \<Rightarrow> rng \<Rightarrow> nat \<times> 'a store \<times> rng" where
  "shuffleArray_st arr s g =
     (let a = length s; s1 = s @ [s ! arr]
      in case shuffle_loop_st (length (s1 ! a) - 1) a s1 g of (s2, g') \<Rightarrow> (a, s2, g'))"

subsection \<open>String builtins\<close>

text \<open>
  \<open>String.prototype.toLowerCase\<close> on U+0000..U+00FF: the letters A-Z and the letters
  U+00C0..U+00DE other than the multiplication sign U+00D7 move up by 32; nothing else changes.
\<close>

definition toLowerCase_char :: "char \<Rightarrow> char" where
  "toLowerCase_char c =
     (let n = (of_char c :: nat)
      in if (65 \<le> n \<and> n \<le> 90) \<or> (192 \<le> n \<and> n \<le> 222 \<and> n \<noteq> 215)
         then char_of (n + 32) else c)"

definition toLowerCase :: "string \<Rightarrow> string" where
  "toLowerCase s = map toLowerCase_char s"

subsection \<open>Filter and sampler with per-type and pooled modes (src/unnamed/part_000, lines 40-136)\<close>

definition validItems :: "CountryItem list \<Rightarrow> CountryItem list" where
  "validItems its = filter (\<lambda>it. CountryItem.images it \<noteq> []) its"

text \<open>
  \<open>getUniqueTypeItems\<close>: the \<open>forEach\<close> with its two accumulators, the set \<open>seen\<close> and the
  array \<open>unique\<close>.
\<close>

fun getUniqueTypeItems_loop ::
  "CountryItem list \<Rightarrow> string set \<Rightarrow> CountryItem list \<Rightarrow> CountryItem list" where
  "getUniqueTypeItems_loop [] seen unique = unique"
| "getUniqueTypeItems_loop (item # rest) seen unique =
     (let key = toLowerCase (CountryItem.type item)
      in if key = [] \<or> key \<in> seen then getUniqueTypeItems_loop rest seen unique
         else getUniqueTypeItems_loop rest (insert key seen) (unique @ [item]))"

definition getUniqueTypeItems :: "CountryItem list \<Rightarrow> CountryItem list" where
  "getUniqueTypeItems its = getUniqueTypeItems_loop its {} []"

definition getImagesForType :: "CountryItem list \<Rightarrow> string option \<Rightarrow> QuestionImage list" where
  "getImagesForType its wanted =
     (let target = (if truthy wanted then Some (toLowerCase (the wanted)) else None)
      in concat (map (\<lambda>item.
           if target = None \<or> Some (toLowerCase (CountryItem.type item)) = target
           then map (\<lambda>u. \<lparr>url = u, type = CountryItem.type item\<rparr>) (CountryItem.images item)
           else []) its))"

text \<open>\<open>options.clueCount ?? 3\<close>\<close>

definition clueCountOf :: "QuestionOptions \<Rightarrow> nat" where
  "clueCountOf options = (case clueCount options of None \<Rightarrow> 3 | Some k \<Rightarrow> k)"

text \<open>
  The \<open>map\<close> of \<open>buildQuestion\<close> that draws one image of each chosen item:
  \<open>item.images[Math.floor(Math.random() * item.images.length)]\<close>.
\<close>

fun pickImages :: "CountryItem list \<Rightarrow> rng \<Rightarrow> QuestionImage list \<times> rng" where
  "pickImages [] g = ([], g)"
| "pickImages (item # rest) g =
     (case random_index (length (CountryItem.images item)) g of
        (j, g1) \<Rightarrow>
          (case pickImages rest g1 of
             (imgs, g2) \<Rightarrow>
               (\<lparr>url = CountryItem.images item ! j, type = CountryItem.type item\<rparr> # imgs, g2)))"

definition buildQuestion :: "CountryEntry \<Rightarrow> QuestionOptions \<Rightarrow> rng \<Rightarrow> Question option \<times> rng" where
  "buildQuestion entry options g =
     (let k = clueCountOf options; usableItems = validItems (items entry)
      in if usableItems = [] then (None, g)
         else if truthy (itemType options) then
           (let imagesPool = getImagesForType usableItems (itemType options)
            in if length imagesPool < k then (None, g)
               else (case shuffleArray imagesPool g of
                       (sh, g1) \<Rightarrow>
                         (Some \<lparr>correctCountry = country entry, images = take k sh\<rparr>, g1)))
         else
           (let uniqueItems = getUniqueTypeItems usableItems
            in if length uniqueItems < k then (None, g)
               else (case shuffleArray uniqueItems g of
                       (sh, g1) \<Rightarrow>
                         (case pickImages (take k sh) g1 of
                            (imgs, g2) \<Rightarrow>
                              (Some \<lparr>correctCountry = country entry, images = imgs\<rparr>, g2)))))"

text \<open>The predicate of the \<open>filter\<close> call in \<open>pickQuestion\<close>, and the filtered list.\<close>

definition isCandidate :: "QuestionOptions \<Rightarrow> CountryEntry \<Rightarrow> bool" where
  "isCandidate options entry =
     (if truthy (region options) \<and> CountryEntry.region entry \<noteq> the (region options) then False
      else (let usableItems = validItems (items entry)
            in if usableItems = [] then False
               else if truthy (itemType options)
                 then clueCountOf options \<le> length (getImagesForType usableItems (itemType options))
                 else clueCountOf options \<le> length (getUniqueTypeItems usableItems)))"

definition candidates :: "CountryEntry list \<Rightarrow> QuestionOptions \<Rightarrow> CountryEntry list" where
  "candidates dataset options = filter (isCandidate options) dataset"

definition pickQuestion :: "CountryEntry list \<Rightarrow> QuestionOptions \<Rightarrow> rng \<Rightarrow> Question option \<times> rng" where
  "pickQuestion dataset options g =
     (let cs = candidates dataset options
      in if cs = [] then (None, g)
         else (case random_index (length cs) g of
                 (j, g1) \<Rightarrow> buildQuestion (cs ! j) options g1))"

subsection \<open>Filter and sampler of the library (src/lib/questions.ts, lines 36-88)\<close>

definition gatherImages :: "CountryItem list \<Rightarrow> string option \<Rightarrow> QuestionImage list" where
  "gatherImages its wanted =
     (let targetType = map_option toLowerCase wanted;
          usableItems = filter (\<lambda>item.
            if \<not> truthy targetType then True
            else Some (toLowerCase (CountryItem.type item)) = targetType) (validItems its)
      in concat (map (\<lambda>item.
           map (\<lambda>img. \<lparr>url = img, type = CountryItem.type item\<rparr>) (CountryItem.images item))
           usableItems))"

definition buildQuestion_lib :: "CountryEntry \<Rightarrow> QuestionOptions \<Rightarrow> rng \<Rightarrow> Question option \<times> rng" where
  "buildQuestion_lib entry options g =
     (let k = clueCountOf options; imagesPool = gatherImages (items entry) (itemType options)
      in if length imagesPool < k then (None, g)
         else (case shuffleArray imagesPool g of
                 (sh, g1) \<Rightarrow> (Some \<lparr>correctCountry = country entry, images = take k sh\<rparr>, g1)))"

definition isCandidate_lib :: "QuestionOptions \<Rightarrow> CountryEntry \<Rightarrow> bool" where
  "isCandidate_lib options entry =
     (if truthy (region options) \<and> CountryEntry.region entry \<noteq> the (region options) then False
      else clueCountOf options \<le> length (gatherImages (items entry) (itemType options)))"

definition candidates_lib :: "CountryEntry list \<Rightarrow> QuestionOptions \<Rightarrow> CountryEntry list" where
  "candidates_lib dataset options = filter (isCandidate_lib options) dataset"

definition pickQuestion_lib :: "CountryEntry list \<Rightarrow> QuestionOptions \<Rightarrow> rng \<Rightarrow> Question option \<times> rng" where
  "pickQuestion_lib dataset options g =
     (let cs = candidates_lib dataset options
      in if cs = [] then (None, g)
         else (case random_index (length cs) g of
                 (j, g1) \<Rightarrow> buildQuestion_lib (cs ! j) options g1))"

subsection \<open>Session state and the click handler (src/unnamed/part_000, lines 162-230, 397-409, 522-528)\<close>

text \<open>
  The component state that the answer evaluator reads and writes. The state of the layout
  (visible clues, hovered country, map size) plays no part in scoring and is left out. The
  handler is a function of the state that it reads. The revision src/unnamed/part_002 (lines
  238-250) has the same handler; the earlier revisions (src/GeoguessrFlashcards.js, lines
  129-136) have the same guard and no streak.
\<close>

record Session =
  question :: "Question option"
  selected :: "string option"
  isCorrect :: "bool option"
  score :: nat
  answered :: nat
  streak :: nat

definition initialSession :: Session where
  "initialSession =
     \<lparr>question = None, selected = None, isCorrect = None, score = 0, answered = 0, streak = 0\<rparr>"

definition handleCountryClick :: "string \<Rightarrow> Session \<Rightarrow> Session" where
  "handleCountryClick countryName st =
     (if truthy (selected st) \<or> question st = None then st
      else (let correct = (countryName = correctCountry (the (question st)))
            in st\<lparr>selected := Some countryName,
                  isCorrect := Some correct,
                  answered := answered st + 1,
                  score := (if correct then score st + 1 else score st),
                  streak := (if correct then streak st + 1 else 0)\<rparr>))"

text \<open>
  \<open>rerollQuestion\<close> once the dataset is loaded, with the result \<open>next\<close> of
  \<open>pickQuestion(data, questionOptions)\<close> passed in.
\<close>

definition rerollQuestion :: "Question option \<Rightarrow> bool \<Rightarrow> Session \<Rightarrow> Session" where
  "rerollQuestion next resetStats st =
     st\<lparr>question := next, selected := None, isCorrect := None,
        score := (if resetStats then 0 else score st),
        answered := (if resetStats then 0 else answered st),
        streak := (if resetStats then 0 else streak st)\<rparr>"

subsection \<open>The map layer and its click listeners (src/unnamed/part_000, lines 522-528 and 841)\<close>

text \<open>
  A click on the map does not call the handler of the current render. The component renders
  \<open><GeoJSON key={question?.correctCountry || "init"} onEachFeature={onEachCountry} />\<close>, and the
  map library calls \<open>onEachFeature\<close> when it builds the layer, which happens again only when
  the key changes. The listener \<open>click: () => handleCountryClick(name)\<close> of a feature is
  therefore the handler of the render in which the layer was built, and it reads the
  \<open>selected\<close> and the \<open>question\<close> of that render; its state updates
  (\<open>setAnswered((n) => n + 1)\<close> and the others) act on the current state.
  src/GeoguessrFlashcards.js (lines 197-215 and 298) has the same layer and listeners.

  \<open>handleCountryClick_bound sel q\<close> is the handler of a render whose \<open>selected\<close> and
  \<open>question\<close> were \<open>sel\<close> and \<open>q\<close>. A \<open>Component\<close> is the session state together with the key
  of the layer that is mounted and the two values that its listeners read. The state updates
  that one handler requests are applied together, and \<open>render\<close> follows them; the model is of
  a map that stays mounted.
\<close>

definition handleCountryClick_bound ::
  "string option \<Rightarrow> Question option \<Rightarrow> string \<Rightarrow> Session \<Rightarrow> Session" where
  "handleCountryClick_bound sel q countryName st =
     (if truthy sel \<or> q = None then st
      else (let correct = (countryName = correctCountry (the q))
            in st\<lparr>selected := Some countryName,
                  isCorrect := Some correct,
                  answered := answered st + 1,
                  score := (if correct then score st + 1 else score st),
                  streak := (if correct then streak st + 1 else 0)\<rparr>))"

record Component =
  session :: Session
  layerKey :: string
  boundSelected :: "string option"
  boundQuestion :: "Question option"

text \<open>\<open>question?.correctCountry || "init"\<close>\<close>

definition layerKeyOf :: "Question option \<Rightarrow> string" where
  "layerKeyOf q =
     (case q of None \<Rightarrow> ''init''
      | Some v \<Rightarrow> if correctCountry v = [] then ''init'' else correctCountry v)"

definition initialComponent :: Component where
  "initialComponent =
     \<lparr>session = initialSession, layerKey = ''init'', boundSelected = None, boundQuestion = None\<rparr>"

text \<open>
  A render keeps the layer and its listeners when the key is unchanged, and builds a new
  layer, whose listeners read the state of this render, when the key has changed.
\<close>

definition render :: "Component \<Rightarrow> Component" where
  "render c =
     (if layerKeyOf (question (session c)) = layerKey c then c
      else c\<lparr>layerKey := layerKeyOf (question (session c)),
             boundSelected := selected (session c),
             boundQuestion := question (session c)\<rparr>)"

text \<open>
  A click on a map feature with the property \<open>name\<close>: \<open>onEachCountry\<close> binds no listener to a
  feature without a truthy name (\<open>if (!name) return;\<close>).
\<close>

definition featureClick :: "string option \<Rightarrow> Component \<Rightarrow> Component" where
  "featureClick name c =
     (if truthy name
      then render (c\<lparr>session := handleCountryClick_bound (boundSelected c) (boundQuestion c)
                                    (the name) (session c)\<rparr>)
      else c)"

definition componentReroll :: "Question option \<Rightarrow> bool \<Rightarrow> Component \<Rightarrow> Component" where
  "componentReroll next resetStats c =
     render (c\<lparr>session := rerollQuestion next resetStats (session c)\<rparr>)"

subsection \<open>Clue types of a record, and example data\<close>

text \<open>
  The clue types of a record as the per-type filter counts them: the types of the items that
  have at least one image, compared after lowercasing, the empty type left out.
\<close>

definition typeKeys :: "CountryItem list \<Rightarrow> string set" where
  "typeKeys its = (\<lambda>it. toLowerCase (CountryItem.type it)) ` set (validItems its) - {[]}"

text \<open>
  Example records and a session state. \<open>exFrance\<close> is the record of the end-to-end
  scenario of the specification.
\<close>

definition noOptions :: QuestionOptions where
  "noOptions = \<lparr>clueCount = None, region = None, itemType = None\<rparr>"

definition exFrance :: CountryEntry where
  "exFrance = \<lparr>country = ''France'', CountryEntry.region = ''Europe'', items =
     [\<lparr>CountryItem.type = ''bollard'', CountryItem.images = [''a.jpg'']\<rparr>,
      \<lparr>CountryItem.type = ''pole'', CountryItem.images = [''b.jpg'']\<rparr>,
      \<lparr>CountryItem.type = ''sign'', CountryItem.images = [''c.jpg'']\<rparr>]\<rparr>"

definition exMixedCase :: CountryEntry where
  "exMixedCase = \<lparr>country = ''Spain'', CountryEntry.region = ''Europe'', items =
     [\<lparr>CountryItem.type = ''Bollard'', CountryItem.images = [''a.jpg'']\<rparr>,
      \<lparr>CountryItem.type = ''bollard'', CountryItem.images = [''b.jpg'']\<rparr>,
      \<lparr>CountryItem.type = ''sign'', CountryItem.images = [''c.jpg'']\<rparr>]\<rparr>"

definition exSingleType :: CountryEntry where
  "exSingleType = \<lparr>country = ''Italy'', CountryEntry.region = ''Europe'', items =
     [\<lparr>CountryItem.type = ''sign'', CountryItem.images = [''a.jpg'', ''b.jpg'', ''c.jpg'']\<rparr>]\<rparr>"

definition exTwoTypes :: CountryEntry where
  "exTwoTypes = \<lparr>country = ''Peru'', CountryEntry.region = ''Americas'', items =
     [\<lparr>CountryItem.type = ''sign'', CountryItem.images = [''a.jpg'', ''b.jpg'']\<rparr>,
      \<lparr>CountryItem.type = ''pole'', CountryItem.images = [''c.jpg'']\<rparr>,
      \<lparr>CountryItem.type = ''bollard'', CountryItem.images = []\<rparr>]\<rparr>"


text \<open>A question about France, and the component after its first question was drawn.\<close>

definition exQuestion :: Question where
  "exQuestion = \<lparr>correctCountry = ''France'', images =
     [\<lparr>url = ''a.jpg'', type = ''bollard''\<rparr>,
      \<lparr>url = ''b.jpg'', type = ''pole''\<rparr>,
      \<lparr>url = ''c.jpg'', type = ''sign''\<rparr>]\<rparr>"

definition exRound :: Component where
  "exRound = componentReroll (Some exQuestion) True initialComponent"

subsection \<open>Name normaliser (src/unnamed/part_002, lines 615-653)\<close>

text \<open>
  \<open>trim\<close> and the class \<open>\s\<close> of regular expressions share one set of white-space
  characters; in U+0000..U+00FF these are TAB, LF, VT, FF, CR, SPACE and NO-BREAK SPACE.

  \<open>stripDiacritics\<close> is \<open>s.normalize("NFD").replace(/[\u0300-\u036f]/g, "")\<close>: the
  canonical decomposition of a letter of U+00C0..U+00FF is its base letter followed by one
  combining mark of U+0300..U+036F, which the replacement removes; no other character of the
  range decomposes.

  \<open>collapse_ws\<close> is \<open>replace(/\s+/g, " ")\<close>: every maximal run of white space becomes one
  space. \<open>strip_other\<close> is \<open>replace(/[^a-z'\s-]/g, "")\<close>.

  The table \<open>ALIASES\<close> lists the entries of the source in order; its one key that holds a
  character outside U+0000..U+00FF (the right single quotation mark U+2019) is left out, as no
  string of the model can equal it.
\<close>

definition is_ws :: "char \<Rightarrow> bool" where
  "is_ws c = ((of_char c :: nat) \<in> {9, 10, 11, 12, 13, 32, 160})"

definition trim :: "string \<Rightarrow> string" where
  "trim s = rev (dropWhile is_ws (rev (dropWhile is_ws s)))"

definition stripDiacritics_char :: "char \<Rightarrow> char" where
  "stripDiacritics_char c =
     (let n = (of_char c :: nat)
      in if 192 \<le> n \<and> n \<le> 197 then CHR ''A''
         else if n = 199 then CHR ''C''
         else if 200 \<le> n \<and> n \<le> 203 then CHR ''E''
         else if 204 \<le> n \<and> n \<le> 207 then CHR ''I''
         else if n = 209 then CHR ''N''
         else if 210 \<le> n \<and> n \<le> 214 then CHR ''O''
         else if 217 \<le> n \<and> n \<le> 220 then CHR ''U''
         else if n = 221 then CHR ''Y''
         else if 224 \<le> n \<and> n \<le> 229 then CHR ''a''
         else if n = 231 then CHR ''c''
         else if 232 \<le> n \<and> n \<le> 235 then CHR ''e''
         else if 236 \<le> n \<and> n \<le> 239 then CHR ''i''
         else if n = 241 then CHR ''n''
         else if 242 \<le> n \<and> n \<le> 246 then CHR ''o''
         else if 249 \<le> n \<and> n \<le> 252 then CHR ''u''
         else if n = 253 \<or> n = 255 then CHR ''y''
         else c)"

definition stripDiacritics :: "string \<Rightarrow> string" where
  "stripDiacritics s = map stripDiacritics_char s"

fun collapse_ws :: "string \<Rightarrow> string" where
  "collapse_ws [] = []"
| "collapse_ws [c] = [if is_ws c then CHR '' '' else c]"
| "collapse_ws (c # d # cs) =
     (if is_ws c then (if is_ws d then collapse_ws (d # cs) else CHR '' '' # collapse_ws (d # cs))
      else c # collapse_ws (d # cs))"

definition keep_char :: "char \<Rightarrow> bool" where
  "keep_char c = ((97 \<le> (of_char c :: nat) \<and> (of_char c :: nat) \<le> 122) \<or> c = CHR 0x27 \<or>
                  is_ws c \<or> c = CHR ''-'')"

definition strip_other :: "string \<Rightarrow> string" where
  "strip_other s = filter keep_char s"

definition ALIASES :: "(string \<times> string) list" where
  "ALIASES =
     [(''united states of america'', ''united states''),
      (''usa'', ''united states''),
      (''us'', ''united states''),
      (''russian federation'', ''russia''),
      (''republic of korea'', ''south korea''),
      (''korea, republic of'', ''south korea''),
      (''korea (republic of)'', ''south korea''),
      (''korea, democratic people's republic of'', ''north korea''),
      (''democratic people's republic of korea'', ''north korea''),
      (''syrian arab republic'', ''syria''),
      (''czech republic'', ''czechia''),
      (''swaziland'', ''eswatini''),
      (''cabo verde'', ''cape verde''),
      (''myanmar'', ''burma''),
      (''ivory coast'', ''cote d'ivoire''),
      (''lao people's democratic republic'', ''laos''),
      (''plurinational state of bolivia'', ''bolivia''),
      (''islamic republic of iran'', ''iran''),
      (''united republic of tanzania'', ''tanzania''),
      (''republic of moldova'', ''moldova''),
      (''macedonia'', ''north macedonia''),
      (''bosnia & herzegovina'', ''bosnia and herzegovina'')]"

definition normalizeCountryName :: "string \<Rightarrow> string" where
  "normalizeCountryName name =
     (if name = [] then []
      else (let s = toLowerCase (trim name);
                s = strip_other (collapse_ws (stripDiacritics s))
            in case map_of ALIASES s of Some v \<Rightarrow> v | None \<Rightarrow> s))"

text \<open>
  Auxiliary notions for the idempotence analysis: the characters that can occur in a
  normalised name, strings without leading, trailing or doubled spaces, and the two halves of
  \<open>normalizeCountryName\<close>. The test \<open>if (!name) return ""\<close> is modelled on strings, where
  only the empty string is falsy.
\<close>

definition plain :: "char \<Rightarrow> bool" where
  "plain c = ((97 \<le> (of_char c :: nat) \<and> (of_char c :: nat) \<le> 122) \<or> c = CHR 0x27 \<or>
              c = CHR ''-'' \<or> c = CHR '' '')"

fun no_double_space :: "string \<Rightarrow> bool" where
  "no_double_space (c # d # cs) =
     (\<not> (c = CHR '' '' \<and> d = CHR '' '') \<and> no_double_space (d # cs))"
| "no_double_space cs = True"

definition tidy :: "string \<Rightarrow> bool" where
  "tidy s = ((s = [] \<or> (hd s \<noteq> CHR '' '' \<and> last s \<noteq> CHR '' '')) \<and> no_double_space s)"

definition core :: "string \<Rightarrow> string" where
  "core s = strip_other (collapse_ws (stripDiacritics (toLowerCase (trim s))))"

definition lookupAlias :: "string \<Rightarrow> string" where
  "lookupAlias s = (case map_of ALIASES s of Some v \<Rightarrow> v | None \<Rightarrow> s)"

subsection \<open>Sampler that avoids repeating images (src/unnamed/part_002, lines 655-688)\<close>

text \<open>
  The ledger \<open>usedImagesByCountry\<close> maps a country to the set of keys
  \<open>`${it.type}|${u}`\<close> of the images already shown. \<open>chooseImage\<close> is the body of the
  \<open>map\<close> over the chosen items, \<open>chooseImages\<close> the \<open>map\<close> itself, with the set and the
  random source threaded through. \<open>if (!choice)\<close> is a truthiness test, so an empty URL
  counts as not found. \<open>imgs[0]\<close> is read on a shuffled copy of \<open>it.images\<close>, which is
  not empty for the items that \<open>validItems\<close> keeps.
\<close>

definition imageKey :: "string \<Rightarrow> string \<Rightarrow> string" where
  "imageKey t u = t @ ''|'' @ u"

definition chooseImage ::
  "CountryItem \<Rightarrow> string set \<Rightarrow> rng \<Rightarrow> QuestionImage \<times> string set \<times> rng" where
  "chooseImage it usedForCountry g =
     (case shuffleArray (CountryItem.images it) g of
        (imgs, g1) \<Rightarrow>
          (let found = List.find (\<lambda>u. imageKey (CountryItem.type it) u \<notin> usedForCountry) imgs
           in if truthy found then
                (\<lparr>url = the found, type = CountryItem.type it\<rparr>,
                 insert (imageKey (CountryItem.type it) (the found)) usedForCountry, g1)
              else
                (let used1 = usedForCountry -
                               imageKey (CountryItem.type it) ` set (CountryItem.images it);
                     choice = hd imgs
                 in (\<lparr>url = choice, type = CountryItem.type it\<rparr>,
                     insert (imageKey (CountryItem.type it) choice) used1, g1))))"

fun chooseImages ::
  "CountryItem list \<Rightarrow> string set \<Rightarrow> rng \<Rightarrow> QuestionImage list \<times> string set \<times> rng" where
  "chooseImages [] used g = ([], used, g)"
| "chooseImages (it # rest) used g =
     (case chooseImage it used g of
        (img, used1, g1) \<Rightarrow>
          (case chooseImages rest used1 g1 of
             (imgs, used2, g2) \<Rightarrow> (img # imgs, used2, g2)))"

definition usedFor :: "(string \<rightharpoonup> string set) \<Rightarrow> string \<Rightarrow> string set" where
  "usedFor usedImagesByCountry c = (case usedImagesByCountry c of None \<Rightarrow> {} | Some u \<Rightarrow> u)"

definition candidates_norepeat :: "CountryEntry list \<Rightarrow> CountryEntry list" where
  "candidates_norepeat dataset =
     filter (\<lambda>entry. 3 \<le> length (validItems (items entry))) dataset"

text \<open>Prefer a different country than the previous one, when possible.\<close>

definition excludePrevious :: "CountryEntry list \<Rightarrow> string option \<Rightarrow> CountryEntry list" where
  "excludePrevious cs excludeCountry =
     (if truthy excludeCountry \<and> 1 < length cs
      then (let pool = filter (\<lambda>c. normalizeCountryName (country c) \<noteq>
                                       normalizeCountryName (the excludeCountry)) cs
            in if pool = [] then cs else pool)
      else cs)"

definition pickQuestion_norepeat ::
  "CountryEntry list \<Rightarrow> string option \<Rightarrow> (string \<rightharpoonup> string set) \<Rightarrow> rng \<Rightarrow>
     Question option \<times> (string \<rightharpoonup> string set) \<times> rng" where
  "pickQuestion_norepeat dataset excludeCountry usedImagesByCountry g =
     (let cs = candidates_norepeat dataset
      in if cs = [] then (None, usedImagesByCountry, g)
         else
           (let pool = excludePrevious cs excludeCountry
            in case random_index (length pool) g of
                 (j, g1) \<Rightarrow>
                   (let correct = pool ! j
                    in case shuffleArray (validItems (items correct)) g1 of
                         (itemPool, g2) \<Rightarrow>
                           (case chooseImages (take 3 itemPool)
                                   (usedFor usedImagesByCountry (country correct)) g2 of
                              (imgs, used1, g3) \<Rightarrow>
                                (Some \<lparr>correctCountry = country correct, images = imgs\<rparr>,
                                 usedImagesByCountry(country correct \<mapsto> used1), g3)))))"





subsection \<open>Dataset validation (src/lib/questions.ts, lines 4-15 and 90)\<close>

text \<open>
  The input of \<open>validateDataset\<close> is the value that \<open>JSON.parse\<close> produced, a \<open>json\<close>; a
  missing property of an object is \<open>None\<close>. The schemas are built from three combinators of the
  validation library, modelled by what they accept:
  \<^item> \<open>z.string().min(1)\<close> accepts a string of length at least 1 (\<open>string_min1\<close>);
  \<^item> \<open>z.array(elem).min(1)\<close> accepts an array of length at least 1 all of whose elements
    \<open>elem\<close> accepts (\<open>array_min1\<close>);
  \<^item> \<open>z.object({...})\<close> accepts an object each of whose listed properties is accepted, and
    returns the listed properties only.
  \<open>parse\<close> returns the parsed value, or throws an error that carries every issue found, each
  with the path to the offending value: the result \<open>Inl\<close> of the model.
\<close>

datatype json = JNull | JBool bool | JNum real | JStr string | JArr "json list"
  | JObj "(string \<times> json) list"

datatype ZodIssueCode = invalid_type | too_small

datatype path_elem = Key string | Index nat

type_synonym ZodIssue = "path_elem list \<times> ZodIssueCode"

definition issuesOf :: "ZodIssue list + 'a \<Rightarrow> ZodIssue list" where
  "issuesOf r = (case r of Inl iss \<Rightarrow> iss | Inr _ \<Rightarrow> [])"

definition string_min1 :: "path_elem list \<Rightarrow> json option \<Rightarrow> ZodIssue list + string" where
  "string_min1 path v =
     (case v of
        Some (JStr s) \<Rightarrow> if length s < 1 then Inl [(path, too_small)] else Inr s
      | _ \<Rightarrow> Inl [(path, invalid_type)])"

fun parse_elems ::
  "(path_elem list \<Rightarrow> json option \<Rightarrow> ZodIssue list + 'a) \<Rightarrow> path_elem list \<Rightarrow> nat \<Rightarrow>
     json list \<Rightarrow> ZodIssue list \<times> 'a list" where
  "parse_elems elem path i [] = ([], [])"
| "parse_elems elem path i (x # xs) =
     (case parse_elems elem path (Suc i) xs of
        (iss, vs) \<Rightarrow>
          (case elem (path @ [Index i]) (Some x) of
             Inl es \<Rightarrow> (es @ iss, vs)
           | Inr v \<Rightarrow> (iss, v # vs)))"

definition array_min1 ::
  "(path_elem list \<Rightarrow> json option \<Rightarrow> ZodIssue list + 'a) \<Rightarrow> path_elem list \<Rightarrow>
     json option \<Rightarrow> ZodIssue list + 'a list" where
  "array_min1 elem path v =
     (case v of
        Some (JArr xs) \<Rightarrow>
          (case parse_elems elem path 0 xs of
             (iss, vs) \<Rightarrow>
               (let found = (if length xs < 1 then [(path, too_small)] else []) @ iss
                in if found = [] then Inr vs else Inl found))
      | _ \<Rightarrow> Inl [(path, invalid_type)])"

definition countryItemSchema :: "path_elem list \<Rightarrow> json option \<Rightarrow> ZodIssue list + CountryItem" where
  "countryItemSchema path v =
     (case v of
        Some (JObj props) \<Rightarrow>
          (let t = string_min1 (path @ [Key ''type'']) (map_of props ''type'');
               i = array_min1 string_min1 (path @ [Key ''images'']) (map_of props ''images'')
           in case (t, i) of
                (Inr ty, Inr imgs) \<Rightarrow> Inr \<lparr>CountryItem.type = ty, CountryItem.images = imgs\<rparr>
              | _ \<Rightarrow> Inl (issuesOf t @ issuesOf i))
      | _ \<Rightarrow> Inl [(path, invalid_type)])"

definition countryEntrySchema :: "path_elem list \<Rightarrow> json option \<Rightarrow> ZodIssue list + CountryEntry" where
  "countryEntrySchema path v =
     (case v of
        Some (JObj props) \<Rightarrow>
          (let c = string_min1 (path @ [Key ''country'']) (map_of props ''country'');
               r = string_min1 (path @ [Key ''region'']) (map_of props ''region'');
               i = array_min1 countryItemSchema (path @ [Key ''items'']) (map_of props ''items'')
           in case (c, r, i) of
                (Inr cn, Inr rg, Inr its) \<Rightarrow>
                  Inr \<lparr>country = cn, CountryEntry.region = rg, items = its\<rparr>
              | _ \<Rightarrow> Inl (issuesOf c @ issuesOf r @ issuesOf i))
      | _ \<Rightarrow> Inl [(path, invalid_type)])"

definition datasetSchema :: "path_elem list \<Rightarrow> json option \<Rightarrow> ZodIssue list + CountryEntry list" where
  "datasetSchema = array_min1 countryEntrySchema"

definition validateDataset :: "json \<Rightarrow> ZodIssue list + CountryEntry list" where
  "validateDataset input = datasetSchema [] (Some input)"

text \<open>The JSON text of a typed dataset, as \<open>JSON.stringify\<close> of generate-data.mjs writes it.\<close>

definition itemJson :: "CountryItem \<Rightarrow> json" where
  "itemJson it = JObj [(''type'', JStr (CountryItem.type it)),
                       (''images'', JArr (map JStr (CountryItem.images it)))]"

definition entryJson :: "CountryEntry \<Rightarrow> json" where
  "entryJson e = JObj [(''country'', JStr (country e)), (''region'', JStr (CountryEntry.region e)),
                       (''items'', JArr (map itemJson (items e)))]"

definition datasetJson :: "CountryEntry list \<Rightarrow> json" where
  "datasetJson ds = JArr (map entryJson ds)"

text \<open>
  The datasets that the schemas accept (\<open>validDataset\<close>), and the datasets that the
  specification describes, where the region may be empty (\<open>claimedSchema\<close>).
\<close>

definition validItem :: "CountryItem \<Rightarrow> bool" where
  "validItem it = (CountryItem.type it \<noteq> [] \<and> CountryItem.images it \<noteq> [] \<and>
                   list_all (\<lambda>u. u \<noteq> []) (CountryItem.images it))"

definition validEntry :: "CountryEntry \<Rightarrow> bool" where
  "validEntry e = (country e \<noteq> [] \<and> CountryEntry.region e \<noteq> [] \<and> items e \<noteq> [] \<and>
                   list_all validItem (items e))"

definition validDataset :: "CountryEntry list \<Rightarrow> bool" where
  "validDataset ds = (ds \<noteq> [] \<and> list_all validEntry ds)"

definition claimedSchema :: "CountryEntry list \<Rightarrow> bool" where
  "claimedSchema ds = list_all (\<lambda>e. country e \<noteq> [] \<and> items e \<noteq> [] \<and>
                                     list_all validItem (items e)) ds"

text \<open>
  A schema decides a property of typed values when it returns the value for every encoded value
  that has the property and a non-empty list of issues for every other encoded value.
\<close>

definition decides ::
  "(path_elem list \<Rightarrow> json option \<Rightarrow> ZodIssue list + 'a) \<Rightarrow> ('a \<Rightarrow> json) \<Rightarrow> ('a \<Rightarrow> bool) \<Rightarrow> bool" where
  "decides schema enc ok =
     (\<forall>p x. (ok x \<longrightarrow> schema p (Some (enc x)) = Inr x) \<and>
            (\<not> ok x \<longrightarrow> (\<exists>iss. schema p (Some (enc x)) = Inl iss \<and> iss \<noteq> [])))"

section \<open>Properties\<close>

subsection \<open>Random indices\<close>

lemma random_index_lt:
  assumes "unit_rng g" and "0 < n"
  shows "fst (random_index n g) < n"
proof -
  have r: "0 \<le> g 0" "g 0 < 1" using assms(1) by (auto simp: unit_rng_def)
  have "g 0 * real n < real n" using r assms(2) by simp
  then have "\<lfloor>g 0 * real n\<rfloor> < int n" by (simp add: floor_less_iff)
  moreover have "0 \<le> \<lfloor>g 0 * real n\<rfloor>" using r by simp
  ultimately have "nat \<lfloor>g 0 * real n\<rfloor> < n" by linarith
  then show ?thesis by (simp add: random_index_def Math_random_def)
qed

lemma random_index_unit:
  "unit_rng g \<Longrightarrow> unit_rng (snd (random_index n g))"
  by (simp add: random_index_def Math_random_def unit_rng_def)

subsection \<open>The shuffle\<close>

lemma shuffle_loop_mset:
  "k < length a \<Longrightarrow> unit_rng g \<Longrightarrow> mset (fst (shuffle_loop k a g)) = mset a"
proof (induction k arbitrary: a g)
  case 0
  then show ?case by simp
next
  case (Suc k)
  obtain j g' where rj: "random_index (Suc k + 1) g = (j, g')"
    by (cases "random_index (Suc k + 1) g")
  have "j < Suc k + 1"
    using random_index_lt[OF Suc.prems(2), of "Suc k + 1"] rj by simp
  then have jl: "j < length a" using Suc.prems(1) by simp
  have u: "unit_rng g'"
    using random_index_unit[OF Suc.prems(2), of "Suc k + 1"] rj by simp
  let ?a = "a[Suc k := a ! j, j := a ! Suc k]"
  have "mset ?a = mset a" using mset_swap[OF jl Suc.prems(1)] by simp
  moreover have "k < length ?a" using Suc.prems(1) by simp
  ultimately show ?case using Suc.IH[of ?a g'] u rj by simp
qed


lemma shuffleArray_mset:
  "unit_rng g \<Longrightarrow> mset (fst (shuffleArray arr g)) = mset arr"
proof (cases arr)
  case Nil
  then show ?thesis by (simp add: shuffleArray_def)
next
  case (Cons x xs)
  assume "unit_rng g"
  then show ?thesis
    unfolding shuffleArray_def using Cons by (intro shuffle_loop_mset) simp_all
qed


lemma shuffleArray_length:
  "unit_rng g \<Longrightarrow> length (fst (shuffleArray arr g)) = length arr"
  using shuffleArray_mset[of g arr] by (metis size_mset)

lemma shuffleArray_set:
  "unit_rng g \<Longrightarrow> set (fst (shuffleArray arr g)) = set arr"
  using shuffleArray_mset[of g arr] by (metis set_mset_mset)

lemma shuffle_loop_st_sim:
  "a < length s \<Longrightarrow>
   shuffle_loop_st k a s g =
     (s[a := fst (shuffle_loop k (s ! a) g)], snd (shuffle_loop k (s ! a) g))"
proof (induction k arbitrary: s g)
  case 0
  then show ?case by simp
next
  case (Suc k)
  then show ?case by (simp add: Let_def split: prod.splits)
qed

lemma shuffleArray_st_sim:
  "shuffleArray_st arr s g =
     (length s, s @ [fst (shuffleArray (s ! arr) g)], snd (shuffleArray (s ! arr) g))"
  by (simp add: shuffleArray_st_def Let_def shuffle_loop_st_sim shuffleArray_def)

text \<open>
  C10. \<open>shuffleArray\<close> returns a new array (a reference that was not allocated before)
  holding a permutation of the input array, and every array that existed before the call,
  the input among them, is unchanged.
\<close>

theorem shuffleArray_permutation:
  assumes "arr < length s" and "unit_rng g"
  shows "case shuffleArray_st arr s g of
           (a, s', g') \<Rightarrow>
             a = length s \<and> length s' = Suc (length s) \<and>
             mset (s' ! a) = mset (s ! arr) \<and>
             s' ! arr = s ! arr \<and> (\<forall>b < length s. s' ! b = s ! b)"
  using assms by (simp add: shuffleArray_st_sim shuffleArray_mset nth_append)

theorem shuffleArray_permutation_witness:
  "(0::nat) < length [[1, 2, 3::nat]] \<and> unit_rng (\<lambda>_. 1 / 2) \<and>
   shuffleArray_st 0 [[1, 2, 3::nat]] (\<lambda>_. 1 / 2) = (1, [[1, 2, 3], [1, 3, 2]], \<lambda>_. 1 / 2)"
  using shuffleArray_permutation [of 0 "[[1, 2, 3::nat]]" "\<lambda>_. 1 / 2"]
  by (simp add: unit_rng_def shuffleArray_st_def random_index_def Math_random_def Let_def
      numeral_2_eq_2)

subsection \<open>Evaluation of the String builtins on literals\<close>

lemmas js_eval = char_of_def bit_Suc_0_iff toLowerCase_def toLowerCase_char_def truthy_def

subsection \<open>Answer evaluator\<close>



text \<open>
  The guard of \<open>handleCountryClick\<close> does return at once for a handler that reads a state in
  which an answer is selected, and the handler of a render is the bound handler of its state.
\<close>

lemma handleCountryClick_guard: "truthy (selected st) \<Longrightarrow> handleCountryClick c st = st"
  by (simp add: handleCountryClick_def)

lemma handleCountryClick_bound_current:
  "handleCountryClick_bound (selected st) (question st) c st = handleCountryClick c st"
  by (simp add: handleCountryClick_bound_def handleCountryClick_def)

text \<open>
  A listener that was bound while nothing was selected counts every click on a named feature,
  whatever is selected by then.
\<close>

lemma featureClick_counts:
  assumes "truthy name" and "boundSelected c = None" and "boundQuestion c = Some q"
  shows "answered (session (featureClick name c)) = answered (session c) + 1 \<and>
         selected (session (featureClick name c)) = name"
  using assms
  by (cases name) (simp_all add: featureClick_def render_def handleCountryClick_bound_def
      truthy_def Let_def)

lemmas component_eval = exRound_def exQuestion_def componentReroll_def featureClick_def
  render_def layerKeyOf_def initialComponent_def initialSession_def rerollQuestion_def
  handleCountryClick_bound_def truthy_def Let_def

text \<open>
  C7. The guard does not hold in the component. After the question about France is drawn, a
  click on Germany is scored as a wrong answer; the layer keeps its key, so its listeners still
  read \<open>selected = null\<close>, and a second click, on France, is scored as well: \<open>selected\<close> and
  \<open>isCorrect\<close> are overwritten, and \<open>answered\<close>, \<open>score\<close> and \<open>streak\<close> grow by 1.
\<close>

theorem second_click_scored:
  "session (featureClick (Some ''Germany'') exRound) =
     \<lparr>question = Some exQuestion, selected = Some ''Germany'', isCorrect = Some False,
      score = 0, answered = 1, streak = 0\<rparr> \<and>
   session (featureClick (Some ''France'') (featureClick (Some ''Germany'') exRound)) =
     \<lparr>question = Some exQuestion, selected = Some ''France'', isCorrect = Some True,
      score = 1, answered = 2, streak = 1\<rparr>"
  by (simp add: component_eval)

subsection \<open>Dataset filter\<close>

text \<open>
  \<open>getUniqueTypeItems\<close> keeps one item for each clue type: its length is the number of
  lowercased, non-empty types.
\<close>

lemma getUniqueTypeItems_loop_length:
  "length (getUniqueTypeItems_loop its seen acc) =
     length acc + card (((\<lambda>it. toLowerCase (CountryItem.type it)) ` set its - {[]}) - seen)"
proof (induction its arbitrary: seen acc)
  case Nil
  then show ?case by simp
next
  case (Cons item rest)
  let ?k = "\<lambda>it. toLowerCase (CountryItem.type it)"
  let ?R = "?k ` set rest - {[]}"
  show ?case
  proof (cases "?k item = [] \<or> ?k item \<in> seen")
    case True
    then have "(?k ` set (item # rest) - {[]}) - seen = ?R - seen" by auto
    then show ?thesis using True Cons.IH[of seen acc] by (simp add: Let_def)
  next
    case False
    have fin: "finite (?R - insert (?k item) seen)" by simp
    have "(?k ` set (item # rest) - {[]}) - seen = insert (?k item) (?R - insert (?k item) seen)"
      using False by auto
    then have "card ((?k ` set (item # rest) - {[]}) - seen) = Suc (card (?R - insert (?k item) seen))"
      using fin by simp
    then show ?thesis using False Cons.IH[of "insert (?k item) seen" "acc @ [item]"]
      by (simp add: Let_def)
  qed
qed

lemma getUniqueTypeItems_length:
  "length (getUniqueTypeItems (validItems its)) = card (typeKeys its)"
  by (simp add: getUniqueTypeItems_def getUniqueTypeItems_loop_length typeKeys_def)

lemma isCandidate_per_type:
  assumes "\<not> truthy (itemType options)"
  shows "isCandidate options e \<longleftrightarrow>
           (truthy (region options) \<longrightarrow> CountryEntry.region e = the (region options)) \<and>
           validItems (items e) \<noteq> [] \<and>
           clueCountOf options \<le> card (typeKeys (items e))"
  using assms by (auto simp: isCandidate_def Let_def getUniqueTypeItems_length)

lemma typeKeys_card_le:
  "card (typeKeys its) \<le> card (CountryItem.type ` set (validItems its))"
proof -
  have "typeKeys its \<subseteq> toLowerCase ` (CountryItem.type ` set (validItems its))"
    by (auto simp: typeKeys_def)
  then have "card (typeKeys its) \<le> card (toLowerCase ` (CountryItem.type ` set (validItems its)))"
    by (intro card_mono) simp_all
  also have "\<dots> \<le> card (CountryItem.type ` set (validItems its))"
    by (intro card_image_le) simp
  finally show ?thesis .
qed

lemmas filter_eval = candidates_def isCandidate_def candidates_lib_def isCandidate_lib_def
  validItems_def getUniqueTypeItems_def getImagesForType_def gatherImages_def clueCountOf_def
  noOptions_def Let_def

text \<open>
  C1, as the code has it. In per-type mode (no truthy \<open>itemType\<close>) the candidates are exactly
  the records of the dataset, in order, whose region is the requested one when a region is
  requested, that have an item with an image, and whose number of clue types is at least
  \<open>clueCount\<close> (3 by default), where the clue types of a record are the types of its items with
  an image, compared after lowercasing, the empty type left out (\<open>typeKeys\<close>). In particular,
  with the default clue count, a dataset in which every record has fewer than 3 distinct clue
  types has no candidate.
\<close>

theorem candidates_per_type:
  assumes "\<not> truthy (itemType options)"
  shows "candidates dataset options =
           filter (\<lambda>e. (truthy (region options) \<longrightarrow> CountryEntry.region e = the (region options)) \<and>
                        validItems (items e) \<noteq> [] \<and>
                        clueCountOf options \<le> card (typeKeys (items e))) dataset
         \<and> (clueCount options = None \<longrightarrow>
              (\<forall>e \<in> set dataset. card (CountryItem.type ` set (validItems (items e))) < 3) \<longrightarrow>
              candidates dataset options = [])"
proof
  show "candidates dataset options =
           filter (\<lambda>e. (truthy (region options) \<longrightarrow> CountryEntry.region e = the (region options)) \<and>
                        validItems (items e) \<noteq> [] \<and>
                        clueCountOf options \<le> card (typeKeys (items e))) dataset"
    unfolding candidates_def using isCandidate_per_type[OF assms] by (intro filter_cong) simp_all
next
  show "clueCount options = None \<longrightarrow>
              (\<forall>e \<in> set dataset. card (CountryItem.type ` set (validItems (items e))) < 3) \<longrightarrow>
              candidates dataset options = []"
  proof (intro impI)
    assume d: "clueCount options = None"
      and f: "\<forall>e \<in> set dataset. card (CountryItem.type ` set (validItems (items e))) < 3"
    have "\<not> isCandidate options e" if "e \<in> set dataset" for e
    proof -
      have "card (typeKeys (items e)) < 3" using f that typeKeys_card_le[of "items e"] by fastforce
      then show ?thesis using isCandidate_per_type[OF assms, of e] d by (simp add: clueCountOf_def)
    qed
    then show "candidates dataset options = []" by (simp add: candidates_def)
  qed
qed

theorem candidates_per_type_witness:
  "\<not> truthy (itemType noOptions) \<and> clueCount noOptions = None \<and>
   card (CountryItem.type ` set (validItems (items exTwoTypes))) < 3 \<and>
   candidates [exTwoTypes] noOptions = [] \<and>
   candidates [exFrance, exTwoTypes] noOptions = [exFrance]"
  using candidates_per_type [of noOptions "[exTwoTypes]"]
  by (simp add: filter_eval js_eval exTwoTypes_def exFrance_def)

text \<open>
  The count of C1 is not the number of distinct type strings: a record with the types
  \<open>Bollard\<close>, \<open>bollard\<close> and \<open>sign\<close>, each with an image, has three distinct type strings and
  is no candidate for three clues.
\<close>

theorem candidates_distinct_types_counterexample:
  "\<not> truthy (itemType noOptions) \<and> clueCountOf noOptions = 3 \<and>
   card (CountryItem.type ` set (validItems (items exMixedCase))) = 3 \<and>
   candidates [exMixedCase] noOptions = []"
  by (simp add: filter_eval js_eval exMixedCase_def)

text \<open>
  C8, as the code has it. When the region option is a non-empty string, every candidate has
  exactly that region; this holds for the filter of part_000 and for the filter of
  src/lib/questions.ts.
\<close>

theorem candidates_region:
  assumes "truthy (region options)"
  shows "(\<forall>e \<in> set (candidates dataset options).
            CountryEntry.region e = the (region options)) \<and>
         (\<forall>e \<in> set (candidates_lib dataset options).
            CountryEntry.region e = the (region options))"
  using assms by (auto simp: candidates_def candidates_lib_def isCandidate_def isCandidate_lib_def
      split: if_splits)

theorem candidates_region_witness:
  "truthy (region (noOptions\<lparr>region := Some ''Europe''\<rparr>)) \<and>
   candidates [exFrance, exTwoTypes] (noOptions\<lparr>region := Some ''Europe''\<rparr>) = [exFrance] \<and>
   candidates_lib [exFrance, exTwoTypes] (noOptions\<lparr>region := Some ''Europe''\<rparr>) = [exFrance] \<and>
   CountryEntry.region exFrance = ''Europe'' \<and> CountryEntry.region exTwoTypes = ''Americas''"
  using candidates_region [of "noOptions\<lparr>region := Some ''Europe''\<rparr>" "[exFrance, exTwoTypes]"]
  by (simp add: filter_eval js_eval exFrance_def exTwoTypes_def)

text \<open>
  An empty-string region is falsy in \<open>options.region && ...\<close> and filters nothing: with the
  region option set to the empty string a record of region \<open>Europe\<close> is a candidate of both
  filters.
\<close>

theorem candidates_region_counterexample:
  "region (noOptions\<lparr>region := Some ''''\<rparr>) = Some '''' \<and>
   CountryEntry.region exFrance \<noteq> '''' \<and>
   exFrance \<in> set (candidates [exFrance] (noOptions\<lparr>region := Some ''''\<rparr>)) \<and>
   exFrance \<in> set (candidates_lib [exFrance] (noOptions\<lparr>region := Some ''''\<rparr>))"
  by (simp add: filter_eval js_eval exFrance_def)

subsection \<open>Question sampler\<close>

lemma getUniqueTypeItems_loop_distinct:
  "distinct (map (\<lambda>it. toLowerCase (CountryItem.type it)) acc) \<Longrightarrow>
   (\<lambda>it. toLowerCase (CountryItem.type it)) ` set acc \<subseteq> seen \<Longrightarrow>
   distinct (map (\<lambda>it. toLowerCase (CountryItem.type it)) (getUniqueTypeItems_loop its seen acc))"
proof (induction its arbitrary: seen acc)
  case Nil
  then show ?case by simp
next
  case (Cons item rest)
  let ?k = "\<lambda>it. toLowerCase (CountryItem.type it)"
  show ?case
  proof (cases "?k item = [] \<or> ?k item \<in> seen")
    case True
    then show ?thesis using Cons.IH[OF Cons.prems] by (simp add: Let_def)
  next
    case False
    have d: "distinct (map ?k (acc @ [item]))" using Cons.prems False by auto
    have s: "?k ` set (acc @ [item]) \<subseteq> insert (?k item) seen" using Cons.prems(2) by auto
    show ?thesis using False Cons.IH[OF d s] by (simp add: Let_def)
  qed
qed

lemma getUniqueTypeItems_loop_subset:
  "set (getUniqueTypeItems_loop its seen acc) \<subseteq> set acc \<union> set its"
proof (induction its arbitrary: seen acc)
  case Nil
  then show ?case by simp
next
  case (Cons item rest)
  show ?case
    using Cons.IH[of seen acc] Cons.IH[of "insert (toLowerCase (CountryItem.type item)) seen" "acc @ [item]"]
    by (auto simp: Let_def)
qed

lemma getUniqueTypeItems_distinct_types:
  "distinct (map CountryItem.type (getUniqueTypeItems its))"
proof -
  have "distinct (map (\<lambda>it. toLowerCase (CountryItem.type it)) (getUniqueTypeItems its))"
    unfolding getUniqueTypeItems_def by (rule getUniqueTypeItems_loop_distinct) simp_all
  then have "distinct (map toLowerCase (map CountryItem.type (getUniqueTypeItems its)))"
    by (simp add: comp_def)
  then show ?thesis by (simp only: distinct_map)
qed

lemma getUniqueTypeItems_subset: "set (getUniqueTypeItems its) \<subseteq> set its"
  using getUniqueTypeItems_loop_subset[of its "{}" "[]"] by (simp add: getUniqueTypeItems_def)

lemma pickImages_types:
  "map QuestionImage.type (fst (pickImages its g)) = map CountryItem.type its"
proof (induction its arbitrary: g)
  case Nil
  then show ?case by simp
next
  case (Cons item rest)
  obtain j g1 where r: "random_index (length (CountryItem.images item)) g = (j, g1)"
    by (cases "random_index (length (CountryItem.images item)) g")
  obtain imgs g2 where p: "pickImages rest g1 = (imgs, g2)" by (cases "pickImages rest g1")
  show ?case using Cons.IH[of g1] r p by simp
qed

lemma pickImages_urls:
  "unit_rng g \<Longrightarrow> \<forall>it \<in> set its. CountryItem.images it \<noteq> [] \<Longrightarrow>
   list_all2 (\<lambda>img it. QuestionImage.type img = CountryItem.type it \<and>
                       url img \<in> set (CountryItem.images it)) (fst (pickImages its g)) its"
proof (induction its arbitrary: g)
  case Nil
  then show ?case by simp
next
  case (Cons item rest)
  obtain j g1 where r: "random_index (length (CountryItem.images item)) g = (j, g1)"
    by (cases "random_index (length (CountryItem.images item)) g")
  have "j < length (CountryItem.images item)"
    using random_index_lt[OF Cons.prems(1), of "length (CountryItem.images item)"] r Cons.prems(2)
    by simp
  moreover have "unit_rng g1"
    using random_index_unit[OF Cons.prems(1), of "length (CountryItem.images item)"] r by simp
  moreover obtain imgs g2 where p: "pickImages rest g1 = (imgs, g2)"
    by (cases "pickImages rest g1")
  ultimately show ?case using Cons.IH[of g1] Cons.prems(2) r by simp
qed

lemma shuffleArray_distinct_map:
  assumes "unit_rng g" and "distinct (map f xs)"
  shows "distinct (map f (fst (shuffleArray xs g)))"
proof -
  have "mset (map f (fst (shuffleArray xs g))) = mset (map f xs)"
    using shuffleArray_mset[OF assms(1), of xs] by (metis mset_map)
  then show ?thesis using assms(2) by (metis mset_eq_imp_distinct_iff)
qed

text \<open>
  The sampler of part_000 returns a question for every record that its filter accepts, with
  exactly \<open>clueCount\<close> images, of pairwise different types in per-type mode.
\<close>

lemma buildQuestion_valid:
  assumes "unit_rng g" and "isCandidate options entry"
  shows "\<exists>q g'. buildQuestion entry options g = (Some q, g') \<and>
           correctCountry q = country entry \<and>
           length (Question.images q) = clueCountOf options \<and>
           (\<not> truthy (itemType options) \<longrightarrow>
              distinct (map QuestionImage.type (Question.images q)))"
proof -
  let ?k = "clueCountOf options"
  let ?u = "validItems (items entry)"
  have ne: "?u \<noteq> []" using assms(2) by (auto simp: isCandidate_def Let_def split: if_splits)
  show ?thesis
  proof (cases "truthy (itemType options)")
    case True
    let ?pool = "getImagesForType ?u (itemType options)"
    have le: "?k \<le> length ?pool"
      using assms(2) True by (auto simp: isCandidate_def Let_def split: if_splits)
    obtain sh g1 where sh: "shuffleArray ?pool g = (sh, g1)" by (cases "shuffleArray ?pool g")
    have "length sh = length ?pool" using shuffleArray_length[OF assms(1), of ?pool] sh by simp
    then show ?thesis using True ne le sh by (simp add: buildQuestion_def Let_def)
  next
    case False
    let ?un = "getUniqueTypeItems ?u"
    have le: "?k \<le> length ?un"
      using assms(2) False by (auto simp: isCandidate_def Let_def split: if_splits)
    obtain sh g1 where sh: "shuffleArray ?un g = (sh, g1)" by (cases "shuffleArray ?un g")
    obtain imgs g2 where pi: "pickImages (take ?k sh) g1 = (imgs, g2)"
      by (cases "pickImages (take ?k sh) g1")
    have len: "length sh = length ?un" using shuffleArray_length[OF assms(1), of ?un] sh by simp
    have "distinct (map CountryItem.type sh)"
      using shuffleArray_distinct_map[OF assms(1) getUniqueTypeItems_distinct_types, of ?u] sh
      by simp
    then have d: "distinct (map CountryItem.type (take ?k sh))"
      by (simp add: take_map[symmetric] distinct_take)
    have ty: "map QuestionImage.type imgs = map CountryItem.type (take ?k sh)"
      using pickImages_types[of "take ?k sh" g1] pi by simp
    then have "length imgs = length (take ?k sh)" by (metis length_map)
    then have "length imgs = ?k" using le len by simp
    then show ?thesis using False ne le sh pi d ty by (simp add: buildQuestion_def Let_def)
  qed
qed

text \<open>
  The sampler of src/lib/questions.ts returns exactly \<open>clueCount\<close> images for every record
  that its filter accepts.
\<close>

lemma buildQuestion_lib_count:
  assumes "unit_rng g" and "isCandidate_lib options entry"
  shows "\<exists>q g'. buildQuestion_lib entry options g = (Some q, g') \<and>
           correctCountry q = country entry \<and>
           length (Question.images q) = clueCountOf options"
proof -
  let ?pool = "gatherImages (items entry) (itemType options)"
  have le: "clueCountOf options \<le> length ?pool"
    using assms(2) by (auto simp: isCandidate_lib_def split: if_splits)
  obtain sh g1 where sh: "shuffleArray ?pool g = (sh, g1)" by (cases "shuffleArray ?pool g")
  have "length sh = length ?pool" using shuffleArray_length[OF assms(1), of ?pool] sh by simp
  then show ?thesis using le sh by (simp add: buildQuestion_lib_def Let_def)
qed

lemmas sampler_eval = buildQuestion_def buildQuestion_lib_def shuffleArray_def random_index_def
  Math_random_def numeral_2_eq_2 numeral_3_eq_3

text \<open>
  C2. The sampler of src/lib/questions.ts has no per-type mode. On a record with a single
  clue type and three images, which its filter accepts when no \<open>itemType\<close> is given, it returns
  three images of the same type.
\<close>

theorem buildQuestion_lib_same_type:
  "isCandidate_lib noOptions exSingleType \<and> itemType noOptions = None \<and>
   clueCountOf noOptions = 3 \<and> unit_rng (\<lambda>_. 0) \<and>
   buildQuestion_lib exSingleType noOptions (\<lambda>_. 0) =
     (Some \<lparr>correctCountry = ''Italy'', images =
        [\<lparr>url = ''b.jpg'', type = ''sign''\<rparr>,
         \<lparr>url = ''c.jpg'', type = ''sign''\<rparr>,
         \<lparr>url = ''a.jpg'', type = ''sign''\<rparr>]\<rparr>, \<lambda>_. 0)"
  by (simp add: filter_eval js_eval sampler_eval exSingleType_def unit_rng_def)

text \<open>
  The same holds for every random source: whatever \<open>Math.random\<close> returns, the three
  images returned for this record have the same type.
\<close>

lemma buildQuestion_lib_same_type_any_rng:
  assumes "unit_rng g"
  shows "\<exists>q g'. buildQuestion_lib exSingleType noOptions g = (Some q, g') \<and>
           map QuestionImage.type (Question.images q) = [''sign'', ''sign'', ''sign'']"
proof -
  let ?pool = "gatherImages (items exSingleType) (itemType noOptions)"
  have pool: "?pool = [\<lparr>url = ''a.jpg'', type = ''sign''\<rparr>, \<lparr>url = ''b.jpg'', type = ''sign''\<rparr>,
                       \<lparr>url = ''c.jpg'', type = ''sign''\<rparr>]"
    by (simp add: filter_eval js_eval exSingleType_def)
  obtain sh g1 where sh: "shuffleArray ?pool g = (sh, g1)" by (cases "shuffleArray ?pool g")
  have len: "length sh = 3" using shuffleArray_length[OF assms, of ?pool] sh pool by simp
  have "set sh = set ?pool" using shuffleArray_set[OF assms, of ?pool] sh by simp
  then have "\<forall>x \<in> set sh. QuestionImage.type x = ''sign''" using pool by auto
  then have "map QuestionImage.type sh = replicate (length sh) ''sign''"
    by (simp add: map_replicate_const[symmetric] cong: map_cong)
  then have "map QuestionImage.type sh = [''sign'', ''sign'', ''sign'']"
    using len by (simp add: numeral_3_eq_3)
  then show ?thesis using sh len pool
    by (simp add: buildQuestion_lib_def clueCountOf_def noOptions_def Let_def)
qed

text \<open>
  The filter and the sampler of part_000 reject the same record, and the filter of
  src/lib/questions.ts accepts it.
\<close>

lemma buildQuestion_single_type_rejected:
  "candidates [exSingleType] noOptions = [] \<and>
   buildQuestion exSingleType noOptions g = (None, g) \<and>
   candidates_lib [exSingleType] noOptions = [exSingleType]"
  by (simp add: filter_eval js_eval sampler_eval exSingleType_def)

subsection \<open>Dataset validation\<close>

lemma decides_string: "decides string_min1 JStr (\<lambda>s. s \<noteq> [])"
  by (auto simp: decides_def string_min1_def)

lemma parse_elems_decides:
  assumes "decides elem enc ok"
  shows "(list_all ok xs \<longrightarrow> parse_elems elem p i (map enc xs) = ([], xs)) \<and>
         (\<not> list_all ok xs \<longrightarrow> fst (parse_elems elem p i (map enc xs)) \<noteq> [])"
proof (induction xs arbitrary: i)
  case Nil
  then show ?case by simp
next
  case (Cons x xs)
  obtain iss vs where r: "parse_elems elem p (Suc i) (map enc xs) = (iss, vs)"
    by (cases "parse_elems elem p (Suc i) (map enc xs)")
  show ?case
  proof (cases "ok x")
    case True
    then have "elem (p @ [Index i]) (Some (enc x)) = Inr x" using assms by (simp add: decides_def)
    then show ?thesis using Cons.IH[of "Suc i"] r True by auto
  next
    case False
    then obtain es where "elem (p @ [Index i]) (Some (enc x)) = Inl es" "es \<noteq> []"
      using assms unfolding decides_def by blast
    then show ?thesis using r False by simp
  qed
qed

lemma decides_array:
  assumes "decides elem enc ok"
  shows "decides (array_min1 elem) (\<lambda>xs. JArr (map enc xs)) (\<lambda>xs. xs \<noteq> [] \<and> list_all ok xs)"
  unfolding decides_def
proof (intro allI conjI impI)
  fix p and xs :: "'a list"
  assume "xs \<noteq> [] \<and> list_all ok xs"
  then show "array_min1 elem p (Some (JArr (map enc xs))) = Inr xs"
    using parse_elems_decides[OF assms, of xs p 0] by (simp add: array_min1_def)
next
  fix p and xs :: "'a list"
  assume n: "\<not> (xs \<noteq> [] \<and> list_all ok xs)"
  obtain iss vs where r: "parse_elems elem p 0 (map enc xs) = (iss, vs)"
    by (cases "parse_elems elem p 0 (map enc xs)")
  have "xs = [] \<or> iss \<noteq> []" using n parse_elems_decides[OF assms, of xs p 0] r by auto
  then show "\<exists>iss. array_min1 elem p (Some (JArr (map enc xs))) = Inl iss \<and> iss \<noteq> []"
    using r by (auto simp: array_min1_def Let_def)
qed

lemma issuesOf_simps: "issuesOf (Inl es) = es" "issuesOf (Inr v) = []"
  by (simp_all add: issuesOf_def)

lemma decides_okD:
  "decides schema enc ok \<Longrightarrow> ok x \<Longrightarrow> schema p (Some (enc x)) = Inr x"
  by (simp add: decides_def)

lemma decides_badD:
  "decides schema enc ok \<Longrightarrow> \<not> ok x \<Longrightarrow> \<exists>es. schema p (Some (enc x)) = Inl es \<and> es \<noteq> []"
  by (simp add: decides_def)

lemma decides_images:
  "decides (array_min1 string_min1) (\<lambda>xs. JArr (map JStr xs))
     (\<lambda>xs. xs \<noteq> [] \<and> list_all (\<lambda>s. s \<noteq> []) xs)"
  by (rule decides_array[OF decides_string])

lemma countryItemSchema_encoded:
  "countryItemSchema p (Some (itemJson it)) =
     (case (string_min1 (p @ [Key ''type'']) (Some (JStr (CountryItem.type it))),
            array_min1 string_min1 (p @ [Key ''images''])
              (Some (JArr (map JStr (CountryItem.images it))))) of
        (Inr ty, Inr imgs) \<Rightarrow> Inr \<lparr>CountryItem.type = ty, CountryItem.images = imgs\<rparr>
      | (t, i) \<Rightarrow> Inl (issuesOf t @ issuesOf i))"
  by (simp add: countryItemSchema_def itemJson_def Let_def split: sum.splits)

lemma decides_item: "decides countryItemSchema itemJson validItem"
  unfolding decides_def
proof (intro allI conjI impI)
  fix p and it :: CountryItem
  assume "validItem it"
  then have "CountryItem.type it \<noteq> []"
    and "CountryItem.images it \<noteq> [] \<and> list_all (\<lambda>s. s \<noteq> []) (CountryItem.images it)"
    by (simp_all add: validItem_def)
  then show "countryItemSchema p (Some (itemJson it)) = Inr it"
    using decides_okD[OF decides_string, of "CountryItem.type it" "p @ [Key ''type'']"]
      decides_okD[OF decides_images, of "CountryItem.images it" "p @ [Key ''images'']"]
    by (simp add: countryItemSchema_encoded)
next
  fix p and it :: CountryItem
  assume bad: "\<not> validItem it"
  let ?t = "string_min1 (p @ [Key ''type'']) (Some (JStr (CountryItem.type it)))"
  let ?i = "array_min1 string_min1 (p @ [Key ''images''])
              (Some (JArr (map JStr (CountryItem.images it))))"
  show "\<exists>iss. countryItemSchema p (Some (itemJson it)) = Inl iss \<and> iss \<noteq> []"
  proof (cases "CountryItem.type it = []")
    case True
    then obtain es where t: "?t = Inl es" "es \<noteq> []"
      using decides_badD[OF decides_string, of "CountryItem.type it" "p @ [Key ''type'']"] by auto
    show ?thesis unfolding countryItemSchema_encoded t using t(2)
      by (simp add: issuesOf_simps)
  next
    case False
    then have t: "?t = Inr (CountryItem.type it)"
      using decides_okD[OF decides_string, of "CountryItem.type it" "p @ [Key ''type'']"] by simp
    have "\<not> (CountryItem.images it \<noteq> [] \<and> list_all (\<lambda>s. s \<noteq> []) (CountryItem.images it))"
      using bad False by (simp add: validItem_def)
    then obtain es where i: "?i = Inl es" "es \<noteq> []"
      using decides_badD[OF decides_images, of "CountryItem.images it" "p @ [Key ''images'']"]
      by auto
    show ?thesis unfolding countryItemSchema_encoded t i using i(2)
      by (simp add: issuesOf_simps)
  qed
qed

lemma decides_items:
  "decides (array_min1 countryItemSchema) (\<lambda>xs. JArr (map itemJson xs))
     (\<lambda>xs. xs \<noteq> [] \<and> list_all validItem xs)"
  by (rule decides_array[OF decides_item])

lemma countryEntrySchema_encoded:
  "countryEntrySchema p (Some (entryJson e)) =
     (case (string_min1 (p @ [Key ''country'']) (Some (JStr (country e))),
            string_min1 (p @ [Key ''region'']) (Some (JStr (CountryEntry.region e))),
            array_min1 countryItemSchema (p @ [Key ''items''])
              (Some (JArr (map itemJson (items e))))) of
        (Inr cn, Inr rg, Inr its) \<Rightarrow> Inr \<lparr>country = cn, CountryEntry.region = rg, items = its\<rparr>
      | (c, r, i) \<Rightarrow> Inl (issuesOf c @ issuesOf r @ issuesOf i))"
  by (simp add: countryEntrySchema_def entryJson_def Let_def split: sum.splits)

lemma decides_entry: "decides countryEntrySchema entryJson validEntry"
  unfolding decides_def
proof (intro allI conjI impI)
  fix p and e :: CountryEntry
  assume "validEntry e"
  then have "country e \<noteq> []" and "CountryEntry.region e \<noteq> []"
    and "items e \<noteq> [] \<and> list_all validItem (items e)"
    by (simp_all add: validEntry_def)
  then show "countryEntrySchema p (Some (entryJson e)) = Inr e"
    using decides_okD[OF decides_string, of "country e" "p @ [Key ''country'']"]
      decides_okD[OF decides_string, of "CountryEntry.region e" "p @ [Key ''region'']"]
      decides_okD[OF decides_items, of "items e" "p @ [Key ''items'']"]
    by (simp add: countryEntrySchema_encoded)
next
  fix p and e :: CountryEntry
  assume bad: "\<not> validEntry e"
  let ?c = "string_min1 (p @ [Key ''country'']) (Some (JStr (country e)))"
  let ?r = "string_min1 (p @ [Key ''region'']) (Some (JStr (CountryEntry.region e)))"
  let ?i = "array_min1 countryItemSchema (p @ [Key ''items''])
              (Some (JArr (map itemJson (items e))))"
  show "\<exists>iss. countryEntrySchema p (Some (entryJson e)) = Inl iss \<and> iss \<noteq> []"
  proof (cases "country e = []")
    case True
    then obtain es where c: "?c = Inl es" "es \<noteq> []"
      using decides_badD[OF decides_string, of "country e" "p @ [Key ''country'']"] by auto
    show ?thesis unfolding countryEntrySchema_encoded c using c(2)
      by (simp add: issuesOf_simps)
  next
    case False
    then have c: "?c = Inr (country e)"
      using decides_okD[OF decides_string, of "country e" "p @ [Key ''country'']"] by simp
    show ?thesis
    proof (cases "CountryEntry.region e = []")
      case True
      then obtain es where r: "?r = Inl es" "es \<noteq> []"
        using decides_badD[OF decides_string, of "CountryEntry.region e" "p @ [Key ''region'']"]
        by auto
      show ?thesis unfolding countryEntrySchema_encoded c r using r(2)
        by (simp add: issuesOf_simps)
    next
      case rg: False
      then have r: "?r = Inr (CountryEntry.region e)"
        using decides_okD[OF decides_string, of "CountryEntry.region e" "p @ [Key ''region'']"]
        by simp
      have "\<not> (items e \<noteq> [] \<and> list_all validItem (items e))"
        using bad False rg by (simp add: validEntry_def)
      then obtain es where i: "?i = Inl es" "es \<noteq> []"
        using decides_badD[OF decides_items, of "items e" "p @ [Key ''items'']"] by auto
      show ?thesis unfolding countryEntrySchema_encoded c r i using i(2)
        by (simp add: issuesOf_simps)
    qed
  qed
qed

lemmas schema_eval = validateDataset_def datasetSchema_def datasetJson_def entryJson_def
  itemJson_def countryEntrySchema_def countryItemSchema_def array_min1_def string_min1_def
  issuesOf_def Let_def

text \<open>
  C3, as the code has it. \<open>validateDataset\<close> accepts the JSON of a dataset, and returns the
  dataset, exactly when the dataset is not empty and every record has a non-empty country, a
  non-empty region and a non-empty list of items, each item with a non-empty type and a
  non-empty list of non-empty image strings. Every other dataset is rejected with at least one
  issue.
\<close>

theorem validateDataset_accepts:
  "(validDataset ds \<longrightarrow> validateDataset (datasetJson ds) = Inr ds) \<and>
   (\<not> validDataset ds \<longrightarrow> (\<exists>iss. validateDataset (datasetJson ds) = Inl iss \<and> iss \<noteq> []))"
  using decides_array[OF decides_entry]
  unfolding decides_def validateDataset_def datasetSchema_def datasetJson_def validDataset_def
  by blast

theorem validateDataset_accepts_witness:
  "validDataset [exFrance] \<and> validateDataset (datasetJson [exFrance]) = Inr [exFrance] \<and>
   \<not> validDataset [] \<and> validateDataset (datasetJson []) = Inl [([], too_small)]"
proof -
  have a: "validDataset [exFrance]"
    by (simp add: validDataset_def validEntry_def validItem_def exFrance_def)
  have b: "\<not> validDataset []" by (simp add: validDataset_def)
  have c: "validateDataset (datasetJson []) = Inl [([], too_small)]"
    by (simp add: schema_eval)
  show ?thesis using validateDataset_accepts [of "[exFrance]"] a b c by simp
qed

text \<open>
  A record whose region is the empty string, as generate-data.mjs writes it, meets the schema
  that the specification describes and is rejected, with the issue \<open>too_small\<close> at
  \<open>[0].region\<close>.
\<close>

theorem validateDataset_empty_region_rejected:
  "claimedSchema [exFrance\<lparr>CountryEntry.region := ''''\<rparr>] \<and>
   validateDataset (datasetJson [exFrance\<lparr>CountryEntry.region := ''''\<rparr>]) =
     Inl [([Index 0, Key ''region''], too_small)]"
  by (simp add: schema_eval claimedSchema_def validItem_def exFrance_def)

subsection \<open>Name normaliser\<close>

lemmas norm_eval = normalizeCountryName_def trim_def is_ws_def stripDiacritics_def
  stripDiacritics_char_def keep_char_def strip_other_def ALIASES_def Let_def js_eval

lemma is_ws_space: "is_ws CHR '' ''"
  by (simp add: is_ws_def)

lemma plain_ws: "plain c \<Longrightarrow> is_ws c \<longleftrightarrow> c = CHR '' ''"
  by (auto simp: plain_def is_ws_def)

lemma plain_lower: "plain c \<Longrightarrow> toLowerCase_char c = c"
  by (auto simp: plain_def toLowerCase_char_def)

lemma plain_base: "plain c \<Longrightarrow> stripDiacritics_char c = c"
  by (auto simp: plain_def stripDiacritics_char_def)

lemma plain_keep: "plain c \<Longrightarrow> keep_char c"
  by (auto simp: plain_def keep_char_def is_ws_def)

lemma keep_plain: "keep_char c \<Longrightarrow> c = CHR '' '' \<or> \<not> is_ws c \<Longrightarrow> plain c"
  by (auto simp: plain_def keep_char_def)

lemma collapse_ws_set:
  "c \<in> set (collapse_ws x) \<Longrightarrow> c = CHR '' '' \<or> (c \<in> set x \<and> \<not> is_ws c)"
  by (induction x rule: collapse_ws.induct) (auto split: if_splits)

lemma core_plain: "c \<in> set (core s) \<Longrightarrow> plain c"
  unfolding core_def strip_other_def using collapse_ws_set keep_plain by fastforce

lemma normalize_alias_core: "normalizeCountryName s = lookupAlias (core s)"
  by (simp add: normalizeCountryName_def lookupAlias_def core_def Let_def trim_def toLowerCase_def
      stripDiacritics_def strip_other_def ALIASES_def)

text \<open>
\<open>trim\<close> removes nothing from a string without white space at its ends, and its result has none.
\<close>

lemma last_dropWhile: "dropWhile P xs \<noteq> [] \<Longrightarrow> last (dropWhile P xs) = last xs"
  by (metis last_appendR takeWhile_dropWhile_id)

lemma trim_id:
  assumes "s = [] \<or> (\<not> is_ws (hd s) \<and> \<not> is_ws (last s))"
  shows "trim s = s"
proof (cases "s = []")
  case True
  then show ?thesis by (simp add: trim_def)
next
  case False
  then have e: "\<not> is_ws (hd s)" "\<not> is_ws (last s)" using assms by auto
  have a: "dropWhile is_ws s = s" using e(1) by (simp add: dropWhile_eq_self_iff)
  have "\<not> is_ws (hd (rev s))" using e(2) False by (simp add: hd_rev)
  then have "dropWhile is_ws (rev s) = rev s" by (simp add: dropWhile_eq_self_iff)
  then show ?thesis using a by (simp add: trim_def)
qed

lemma trim_ends:
  "trim s = [] \<or> (\<not> is_ws (hd (trim s)) \<and> \<not> is_ws (last (trim s)))"
proof (cases "trim s = []")
  case True
  then show ?thesis by simp
next
  case False
  let ?t = "dropWhile is_ws s"
  let ?u = "dropWhile is_ws (rev ?t)"
  have u: "?u \<noteq> []" using False by (simp add: trim_def)
  have t: "?t \<noteq> []"
  proof
    assume a: "?t = []"
    have "?u = []" unfolding a by simp
    then show False using u by simp
  qed
  have "\<not> is_ws (hd ?u)" using u by (rule hd_dropWhile)
  then have l: "\<not> is_ws (last (trim s))" using u by (simp add: trim_def last_rev)
  have "last ?u = last (rev ?t)" using u by (rule last_dropWhile)
  then have "hd (trim s) = hd ?t" using u t by (simp add: trim_def hd_rev last_rev)
  moreover have "\<not> is_ws (hd ?t)" using t by (rule hd_dropWhile)
  ultimately show ?thesis using l by simp
qed

lemma trim_set: "set (trim s) \<subseteq> set s"
proof -
  have "set (trim s) \<subseteq> set (dropWhile is_ws s)"
    unfolding trim_def by (metis set_dropWhileD set_rev subsetI)
  then show ?thesis by (meson set_dropWhileD subset_iff)
qed

text \<open>
\<open>collapse_ws\<close> leaves no doubled space and changes nothing in a string without one.
\<close>

lemma nds_cons: "c \<noteq> CHR '' '' \<Longrightarrow> no_double_space (c # y) = no_double_space y"
  by (cases y) auto

lemma collapse_ws_cons: "\<not> is_ws d \<Longrightarrow> collapse_ws (d # cs) = d # collapse_ws cs"
  by (cases cs) auto

lemma collapse_ws_nds: "no_double_space (collapse_ws x)"
proof (induction x rule: collapse_ws.induct)
  case 1
  then show ?case by simp
next
  case (2 c)
  then show ?case by simp
next
  case (3 c d cs)
  show ?case
  proof (cases "is_ws c")
    case True
    show ?thesis
    proof (cases "is_ws d")
      case True
      with \<open>is_ws c\<close> 3 show ?thesis by simp
    next
      case False
      then have "d \<noteq> CHR '' ''" using is_ws_space by auto
      then show ?thesis using \<open>is_ws c\<close> False 3 by (simp add: collapse_ws_cons)
    qed
  next
    case False
    then have "c \<noteq> CHR '' ''" using is_ws_space by auto
    then show ?thesis using False 3 by (simp add: nds_cons)
  qed
qed

lemma collapse_ws_last:
  "x \<noteq> [] \<Longrightarrow> \<not> is_ws (last x) \<Longrightarrow> collapse_ws x \<noteq> [] \<and> last (collapse_ws x) = last x"
  by (induction x rule: collapse_ws.induct) (auto split: if_splits)

lemma collapse_ws_id:
  "\<forall>c \<in> set r. is_ws c \<longrightarrow> c = CHR '' '' \<Longrightarrow> no_double_space r \<Longrightarrow> collapse_ws r = r"
  by (induction r rule: collapse_ws.induct) (auto split: if_splits)

text \<open>
On a string of plain characters only \<open>trim\<close> and \<open>collapse_ws\<close> act.
\<close>

lemma plain_map_id:
  "\<forall>c \<in> set r. plain c \<Longrightarrow> toLowerCase r = r \<and> stripDiacritics r = r \<and> strip_other r = r"
  by (simp add: toLowerCase_def stripDiacritics_def strip_other_def plain_lower plain_base
      plain_keep map_idI)

lemma core_of_plain:
  assumes "\<forall>c \<in> set r. plain c"
  shows "core r = collapse_ws (trim r)"
proof -
  have p: "\<forall>c \<in> set (trim r). plain c" using assms trim_set by blast
  have "\<forall>c \<in> set (collapse_ws (trim r)). plain c"
  proof
    fix c assume "c \<in> set (collapse_ws (trim r))"
    then have "c = CHR '' '' \<or> c \<in> set (trim r)" using collapse_ws_set by blast
    then show "plain c" using p by (auto simp: plain_def)
  qed
  then show ?thesis using plain_map_id[OF p] plain_map_id by (simp add: core_def)
qed

lemma tidy_core_of_plain:
  assumes "\<forall>c \<in> set r. plain c"
  shows "tidy (core r)"
proof (cases "trim r = []")
  case True
  then show ?thesis using core_of_plain[OF assms] by (simp add: tidy_def)
next
  case False
  then have e: "\<not> is_ws (hd (trim r))" "\<not> is_ws (last (trim r))" using trim_ends[of r] by auto
  obtain d cs where t: "trim r = d # cs" using False by (cases "trim r") auto
  have h: "hd (collapse_ws (trim r)) = hd (trim r)" using e(1) t by (simp add: collapse_ws_cons)
  have l: "last (collapse_ws (trim r)) = last (trim r)"
    using collapse_ws_last[OF False e(2)] by simp
  have "hd (trim r) \<noteq> CHR '' ''" "last (trim r) \<noteq> CHR '' ''" using e is_ws_space by auto
  then show ?thesis using h l collapse_ws_nds core_of_plain[OF assms] by (simp add: tidy_def)
qed

lemma core_id:
  assumes "\<forall>c \<in> set r. plain c" and "tidy r"
  shows "core r = r"
proof -
  have "r = [] \<or> (\<not> is_ws (hd r) \<and> \<not> is_ws (last r))"
    using assms by (cases r) (auto simp: tidy_def plain_ws)
  then have "trim r = r" by (rule trim_id)
  moreover have "collapse_ws r = r"
    using assms by (intro collapse_ws_id) (auto simp: tidy_def plain_ws)
  ultimately show ?thesis using core_of_plain[OF assms(1)] by simp
qed

text \<open>
Every value of the alias table is plain, tidy and not itself a key.
\<close>

lemma ALIASES_values:
  "list_all (\<lambda>(k, v). list_all plain v \<and> tidy v \<and> map_of ALIASES v = None) ALIASES"
  by code_simp

lemma alias_value:
  assumes "map_of ALIASES k = Some v"
  shows "(\<forall>c \<in> set v. plain c) \<and> tidy v \<and> map_of ALIASES v = None"
proof -
  have "(k, v) \<in> set ALIASES" using assms by (rule map_of_SomeD)
  then show ?thesis using ALIASES_values by (auto simp: list_all_iff)
qed

lemma normalize_plain: "c \<in> set (normalizeCountryName s) \<Longrightarrow> plain c"
  unfolding normalize_alias_core lookupAlias_def
  using core_plain alias_value by (auto split: option.splits)

lemma normalize_of_plain_tidy:
  assumes "\<forall>c \<in> set r. plain c"
  shows "tidy (normalizeCountryName r)"
  unfolding normalize_alias_core lookupAlias_def
  using tidy_core_of_plain[OF assms] alias_value by (auto split: option.splits)

lemma normalize_fixed_iff_tidy:
  "normalizeCountryName (normalizeCountryName s) = normalizeCountryName s
     \<longleftrightarrow> tidy (normalizeCountryName s)"
proof
  assume "normalizeCountryName (normalizeCountryName s) = normalizeCountryName s"
  then show "tidy (normalizeCountryName s)"
    using normalize_of_plain_tidy[of "normalizeCountryName s"] normalize_plain by metis
next
  assume t: "tidy (normalizeCountryName s)"
  let ?r = "normalizeCountryName s"
  have p: "\<forall>c \<in> set ?r. plain c" using normalize_plain by blast
  have c: "core ?r = ?r" using core_id[OF p t] .
  have "map_of ALIASES ?r = None"
  proof (cases "map_of ALIASES (core s)")
    case None
    then show ?thesis by (simp add: normalize_alias_core lookupAlias_def)
  next
    case (Some v)
    then show ?thesis using alias_value[OF Some] by (simp add: normalize_alias_core lookupAlias_def)
  qed
  then have "lookupAlias ?r = ?r" by (simp add: lookupAlias_def)
  then show "normalizeCountryName ?r = ?r" using c normalize_alias_core[of ?r] by simp
qed

lemma normalize_twice_fixed:
  "normalizeCountryName (normalizeCountryName (normalizeCountryName s)) =
     normalizeCountryName (normalizeCountryName s)"
proof -
  have "tidy (normalizeCountryName (normalizeCountryName s))"
    using normalize_of_plain_tidy[of "normalizeCountryName s"] normalize_plain by blast
  then show ?thesis using normalize_fixed_iff_tidy[of "normalizeCountryName s"] by simp
qed

text \<open>
  C4, as the code has it. \<open>normalizeCountryName (normalizeCountryName s)\<close> equals
  \<open>normalizeCountryName s\<close> exactly when \<open>normalizeCountryName s\<close> has no leading, trailing or
  doubled space; and the result of a second application is always a fixed point.
\<close>

theorem normalize_idempotent_iff:
  "(normalizeCountryName (normalizeCountryName s) = normalizeCountryName s
      \<longleftrightarrow> tidy (normalizeCountryName s)) \<and>
   normalizeCountryName (normalizeCountryName (normalizeCountryName s)) =
     normalizeCountryName (normalizeCountryName s)"
  using normalize_fixed_iff_tidy normalize_twice_fixed by blast

theorem normalize_idempotent_iff_witness:
  "tidy (normalizeCountryName ''Czech Republic'') \<and>
   normalizeCountryName (normalizeCountryName ''Czech Republic'') =
     normalizeCountryName ''Czech Republic''"
proof -
  have "normalizeCountryName ''Czech Republic'' = ''czechia''" by (simp add: norm_eval)
  moreover have "tidy ''czechia''" by (simp add: tidy_def)
  ultimately show ?thesis using normalize_idempotent_iff [of "''Czech Republic''"] by simp
qed

text \<open>
  The stripping of characters comes after \<open>trim\<close> and after the collapsing of white space, so
  it can leave a doubled space that a second application removes: the normaliser is not
  idempotent.
\<close>

theorem normalize_not_idempotent:
  "normalizeCountryName ''Trinidad & Tobago'' = ''trinidad  tobago'' \<and>
   normalizeCountryName (normalizeCountryName ''Trinidad & Tobago'') = ''trinidad tobago''"
  by (simp add: norm_eval)

text \<open>
  C5. The normaliser identifies the known aliases: \<open>Russian Federation\<close> with \<open>russia\<close>,
  \<open>USA\<close> with \<open>United States\<close>, and \<open>czech republic\<close> with \<open>czechia\<close>.
\<close>

theorem normalize_aliases:
  "normalizeCountryName ''Russian Federation'' = normalizeCountryName ''russia'' \<and>
   normalizeCountryName ''USA'' = normalizeCountryName ''United States'' \<and>
   normalizeCountryName ''czech republic'' = normalizeCountryName ''czechia''"
  by (simp add: norm_eval)

subsection \<open>Sampler that avoids repeating images\<close>


lemmas norepeat_eval = pickQuestion_norepeat_def candidates_norepeat_def excludePrevious_def chooseImage_def usedFor_def imageKey_def
  validItems_def shuffleArray_def random_index_def Math_random_def truthy_def Let_def
  numeral_2_eq_2 numeral_3_eq_3







text \<open>
  A step that starts a new cycle: both images of the item are recorded, the entries of the
  item are cleared and the returned image is recorded again.
\<close>

lemma chooseImage_cycle_example:
  "chooseImage \<lparr>CountryItem.type = ''sign'', CountryItem.images = [''a.jpg'', ''b.jpg'']\<rparr>
     {''sign|a.jpg'', ''sign|b.jpg'', ''pole|c.jpg''} (\<lambda>_. 0) =
     (\<lparr>url = ''b.jpg'', type = ''sign''\<rparr>, {''sign|b.jpg'', ''pole|c.jpg''}, \<lambda>_. 0)"
  by (simp add: norepeat_eval insert_Diff_if insert_commute)

end
